theory Spec2Isabelle
  imports Main "HOL-Library.Word"
begin

section \<open>Reference-counted array resources (\<^verbatim>\<open>c_src/emlx_nif.cpp\<close>)\<close>

text \<open>
  A resource of type \<^verbatim>\<open>ARRAY_TYPE\<close> is one block holding the array, then a
  \<^verbatim>\<open>std::atomic<int>\<close> reference count, then a \<^verbatim>\<open>std::atomic_flag\<close>.
  The count is a 32-bit machine integer whose atomic arithmetic wraps around; the code only
  ever compares it with zero. The field \<open>destructed\<close> is a ghost counter: how many times
  \<^verbatim>\<open>~array()\<close> has been run on the object.
\<close>

type_synonym erl_term = nat

record 'a array_resource =
  object :: 'a
  refcount :: "32 word"
  deleted :: bool
  destructed :: nat

text \<open>
  The resources of type \<^verbatim>\<open>ARRAY_TYPE\<close> known to the runtime, by the term that denotes them:
  \<open>s t = None\<close> is \<^verbatim>\<open>enif_get_resource(env, t, ARRAY_TYPE, &ptr)\<close> returning false.
  A resource stays in the store after its finalizer has run, so that \<open>destructed\<close> can be read.
\<close>

type_synonym 'a resources = "erl_term \<rightharpoonup> 'a array_resource"

text \<open>
  Modelled from the spec: \<^verbatim>\<open>nx::nif::error\<close> (\<^verbatim>\<open>nx_nif_utils.hpp\<close>) is not among the sources;
  the specification names the two errors of an acquire \<open>Invalid\<close> and \<open>Deallocated\<close>.
  \<open>Invalid\<close> is \<^verbatim>\<open>nx::nif::error(env, "Unable to get array param in NIF")\<close> and
  \<open>Deallocated\<close> is \<^verbatim>\<open>nx::nif::error(env, "Array has been deallocated")\<close>.
\<close>

datatype error = Invalid | Deallocated

fun message :: "error \<Rightarrow> string" where
  "message Invalid = ''Unable to get array param in NIF''"
| "message Deallocated = ''Array has been deallocated''"

text \<open>
  An \<^verbatim>\<open>ArrayP\<close> object: \<open>ptr = None\<close> is \<^verbatim>\<open>nullptr\<close>. Its \<^verbatim>\<open>refcount\<close> and
  \<^verbatim>\<open>deleted\<close> pointers are computed from \<^verbatim>\<open>ptr\<close>, so they are the fields of the
  resource that \<open>ptr\<close> denotes.
\<close>

record ArrayP =
  ptr :: "erl_term option"
  err :: "error option"

definition is_valid :: "ArrayP \<Rightarrow> bool" where
  "is_valid a = (ptr a \<noteq> None)"

definition data :: "ArrayP \<Rightarrow> erl_term option" where
  "data a = ptr a"

text \<open>\<^verbatim>\<open>ptr->~array()\<close>: one more run of the object's destructor.\<close>

definition destruct_array :: "'a array_resource \<Rightarrow> 'a array_resource" where
  "destruct_array r = r\<lparr>destructed := Suc (destructed r)\<rparr>"

text \<open>\<^verbatim>\<open>refcount->fetch_sub(n)\<close> returns the value held before the subtraction.\<close>

definition fetch_sub :: "'a array_resource \<Rightarrow> 32 word \<Rightarrow> 32 word \<times> 'a array_resource" where
  "fetch_sub r n = (refcount r, r\<lparr>refcount := refcount r - n\<rparr>)"

text \<open>\<^verbatim>\<open>atomic_flag_test_and_set(deleted)\<close> returns the old flag and leaves the flag set.\<close>

definition atomic_flag_test_and_set :: "'a array_resource \<Rightarrow> bool \<times> 'a array_resource" where
  "atomic_flag_test_and_set r = (deleted r, r\<lparr>deleted := True\<rparr>)"

text \<open>
  The constructor \<^verbatim>\<open>ArrayP(env, arg)\<close>. The load of the count and its increment are two
  atomic operations of the source; the model runs them in one step.
\<close>

definition ArrayP_ctor :: "'a resources \<Rightarrow> erl_term \<Rightarrow> ArrayP \<times> 'a resources" where
  "ArrayP_ctor s arg =
     (case s arg of
        None \<Rightarrow> (\<lparr>ptr = None, err = Some Invalid\<rparr>, s)
      | Some r \<Rightarrow>
          if refcount r = 0 then (\<lparr>ptr = None, err = Some Deallocated\<rparr>, s)
          else (\<lparr>ptr = Some arg, err = None\<rparr>, s(arg \<mapsto> r\<lparr>refcount := refcount r + 1\<rparr>)))"

text \<open>
  The destructor \<^verbatim>\<open>~ArrayP()\<close>. A valid \<^verbatim>\<open>ArrayP\<close> always denotes a resource of the
  store; the branch for a missing one leaves the store as it is.
\<close>

definition ArrayP_dtor :: "'a resources \<Rightarrow> ArrayP \<Rightarrow> 'a resources" where
  "ArrayP_dtor s a =
     (case ptr a of
        None \<Rightarrow> s
      | Some p \<Rightarrow>
          (case s p of
             None \<Rightarrow> s
           | Some r \<Rightarrow>
               (case fetch_sub r 1 of
                  (old, r') \<Rightarrow> if old = 0 then s(p \<mapsto> destruct_array r') else s(p \<mapsto> r'))))"

text \<open>\<^verbatim>\<open>ArrayP::deallocate()\<close>; \<^verbatim>\<open>&&\<close> does not touch the flag of an invalid \<^verbatim>\<open>ArrayP\<close>.\<close>

definition deallocate :: "'a resources \<Rightarrow> ArrayP \<Rightarrow> bool \<times> 'a resources" where
  "deallocate s a =
     (case ptr a of
        None \<Rightarrow> (False, s)
      | Some p \<Rightarrow>
          (case s p of
             None \<Rightarrow> (False, s)
           | Some r \<Rightarrow>
               (case atomic_flag_test_and_set r of
                  (old, r') \<Rightarrow>
                    if old = False then (True, s(p \<mapsto> r'\<lparr>refcount := refcount r' - 1\<rparr>))
                    else (False, s(p \<mapsto> r')))))"

text \<open>
  \<^verbatim>\<open>create_array_resource(env, array)\<close>. The argument \<open>alloc\<close> is what
  \<^verbatim>\<open>enif_alloc_resource\<close> returns: \<open>None\<close> for \<^verbatim>\<open>NULL\<close>, else the new block, named by
  the term that \<^verbatim>\<open>enif_make_resource\<close> makes for it. \<open>Inl Badarg\<close> is the exception term
  of \<^verbatim>\<open>enif_make_badarg\<close>.
\<close>

datatype nif_error = Badarg

definition create_array_resource ::
  "'a resources \<Rightarrow> erl_term option \<Rightarrow> 'a \<Rightarrow> (nif_error + erl_term) \<times> 'a resources" where
  "create_array_resource s alloc array =
     (case alloc of
        None \<Rightarrow> (Inl Badarg, s)
      | Some p \<Rightarrow>
          (Inr p,
           s(p \<mapsto> \<lparr>object = array, refcount = 1, deleted = False, destructed = 0\<rparr>)))"

text \<open>
  \<^verbatim>\<open>free_array(env, obj)\<close>, the destructor hook registered for \<^verbatim>\<open>ARRAY_TYPE\<close>, which the
  runtime's garbage collector calls; \<open>obj = None\<close> is \<^verbatim>\<open>nullptr\<close>.
\<close>

definition free_array :: "'a resources \<Rightarrow> erl_term option \<Rightarrow> 'a resources" where
  "free_array s obj =
     (case obj of
        None \<Rightarrow> s
      | Some p \<Rightarrow> (case s p of None \<Rightarrow> s | Some r \<Rightarrow> s(p \<mapsto> destruct_array r)))"


subsection \<open>Sequences of operations on the resources\<close>

text \<open>
  What callers do with the resources, one operation at a time: construct an \<^verbatim>\<open>ArrayP\<close> for a
  term, destroy an \<^verbatim>\<open>ArrayP\<close>, call \<^verbatim>\<open>deallocate\<close> through one, and the garbage collector
  running the destructor hook.
\<close>

datatype array_op =
  Acquire erl_term | Release ArrayP | Deallocate ArrayP | Finalize "erl_term option"

fun array_step :: "'a resources \<Rightarrow> array_op \<Rightarrow> 'a resources" where
  "array_step s (Acquire t) = snd (ArrayP_ctor s t)"
| "array_step s (Release a) = ArrayP_dtor s a"
| "array_step s (Deallocate a) = snd (deallocate s a)"
| "array_step s (Finalize obj) = free_array s obj"

fun array_run :: "'a resources \<Rightarrow> array_op list \<Rightarrow> 'a resources" where
  "array_run s [] = s"
| "array_run s (x # xs) = array_run (array_step s x) xs"

text \<open>Whether an operation goes through an \<^verbatim>\<open>ArrayP\<close> that points at the resource \<open>p\<close>.\<close>

fun uses_ref :: "erl_term \<Rightarrow> array_op \<Rightarrow> bool" where
  "uses_ref p (Acquire t) = False"
| "uses_ref p (Release a) = (ptr a = Some p)"
| "uses_ref p (Deallocate a) = (ptr a = Some p)"
| "uses_ref p (Finalize obj) = False"

text \<open>
  A resource created for the unit object under the term \<open>0\<close>, and the \<^verbatim>\<open>ArrayP\<close> that a
  successful construction for that term yields.
\<close>

definition created :: "unit resources" where
  "created = snd (create_array_resource Map.empty (Some 0) ())"

definition ref0 :: ArrayP where
  "ref0 = \<lparr>ptr = Some 0, err = None\<rparr>"

text \<open>The store whose only resource, under the term \<open>0\<close>, has the given count, flag and
  number of destructor runs.\<close>

definition store0 :: "32 word \<Rightarrow> bool \<Rightarrow> nat \<Rightarrow> unit resources" where
  "store0 c d n = [0 \<mapsto> \<lparr>object = (), refcount = c, deleted = d, destructed = n\<rparr>]"

text \<open>
  The life of the resource under the term \<open>0\<close> as its callers can drive it, with the number
  \<open>k\<close> of \<^verbatim>\<open>ArrayP\<close> objects that are alive and valid: an acquire adds one when it succeeds,
  a release needs one and removes it, \<^verbatim>\<open>deallocate\<close> is called through one. \<open>None\<close> marks a
  sequence that callers cannot produce.
\<close>

fun life :: "nat \<times> unit resources \<Rightarrow> array_op list \<Rightarrow> (nat \<times> unit resources) option" where
  "life (k, s) [] = Some (k, s)"
| "life (k, s) (Acquire t # xs) =
     (if t = 0
      then life (if is_valid (fst (ArrayP_ctor s 0)) then Suc k else k, snd (ArrayP_ctor s 0)) xs
      else None)"
| "life (k, s) (Release a # xs) =
     (if a = ref0 \<and> 0 < k then life (k - 1, ArrayP_dtor s a) xs else None)"
| "life (k, s) (Deallocate a # xs) =
     (if a = ref0 \<and> 0 < k then life (k, snd (deallocate s a)) xs else None)"
| "life (k, s) (Finalize obj # xs) = None"

text \<open>
  The count the resource has with \<open>k\<close> live references, the creation's own reference being
  dropped once the flag is set.
\<close>

definition expected_count :: "nat \<Rightarrow> bool \<Rightarrow> 32 word" where
  "expected_count k d = of_nat (Suc k) - (if d then 1 else 0)"

definition count_of :: "'a resources \<Rightarrow> erl_term \<Rightarrow> int option" where
  "count_of s t = map_option (\<lambda>r. sint (refcount r)) (s t)"

definition destructed_of :: "'a resources \<Rightarrow> erl_term \<Rightarrow> nat option" where
  "destructed_of s t = map_option destructed (s t)"

definition deleted_of :: "'a resources \<Rightarrow> erl_term \<Rightarrow> bool option" where
  "deleted_of s t = map_option deleted (s t)"

section \<open>The call bridge (\<^verbatim>\<open>c_src/nif_call.h\<close>)\<close>

subsection \<open>Terms, environments and the context record\<close>

text \<open>
  Erlang terms as far as the bridge looks at them. \<open>Non_value\<close> is the all-zero word that
  \<^verbatim>\<open>memset\<close> leaves in a term field; \<open>Callback_term\<close> is the resource term of the call's
  \<^verbatim>\<open>CallbackNifRes\<close>, the only term for which
  \<^verbatim>\<open>enif_get_resource(env, t, CallbackNifRes::type, &res)\<close> succeeds.
\<close>

datatype eterm = Non_value | Atom string | Integer int | Tuple "eterm list" | Callback_term

definition kAtomNil :: eterm where "kAtomNil = Atom ''nil''"
definition kAtomENOMEM :: eterm where "kAtomENOMEM = Atom ''enomem''"

datatype env = Caller_env | Msg_env | Evaluator_env

text \<open>
  \<^verbatim>\<open>struct CallbackNifRes\<close>. The three pointers are modelled by whether they are non-\<^verbatim>\<open>NULL\<close>:
  there is one context per call, and its environment is \<open>Msg_env\<close>.
\<close>

record CallbackNifRes =
  msg_env :: bool
  mtx :: bool
  cond :: bool
  return_value :: eterm
  return_value_set :: bool

text \<open>The record after \<^verbatim>\<open>memset(res, 0, sizeof(CallbackNifRes))\<close>.\<close>

definition zeroed :: CallbackNifRes where
  "zeroed = \<lparr>msg_env = False, mtx = False, cond = False,
             return_value = Non_value, return_value_set = False\<rparr>"

subsection \<open>Allocation and release of the pieces of a context\<close>

text \<open>
  The runtime's allocator is outside the repository: whether each of the four allocations of
  \<^verbatim>\<open>prepare_nif_call\<close> succeeds is a parameter. What the code allocates and releases is
  recorded as a trace, in program order.
\<close>

datatype piece = Res_block | Env_piece | Mutex_piece | Cond_piece

datatype event = Alloc piece | Free piece

record allocator =
  alloc_resource_ok :: bool
  alloc_env_ok :: bool
  mutex_create_ok :: bool
  cond_create_ok :: bool

text \<open>\<^verbatim>\<open>destruct_nif_call_res\<close>, the destructor hook of the resource type.\<close>

definition destruct_nif_call_res :: "CallbackNifRes \<Rightarrow> event list" where
  "destruct_nif_call_res r =
     (if cond r then [Free Cond_piece] else []) @
     (if mtx r then [Free Mutex_piece] else []) @
     (if msg_env r then [Free Env_piece] else [])"

text \<open>
  \<^verbatim>\<open>enif_release_resource(res)\<close> on a block whose only reference is the one
  \<^verbatim>\<open>enif_alloc_resource\<close> returned. The runtime is outside the repository; it destructs a
  resource when its last reference is removed, so here it runs the destructor hook that
  \<^verbatim>\<open>nif_call_onload\<close> registers, \<^verbatim>\<open>destruct_nif_call_res\<close>, and frees the block.
\<close>

definition enif_release_resource :: "CallbackNifRes \<Rightarrow> event list" where
  "enif_release_resource r = destruct_nif_call_res r @ [Free Res_block]"

definition prepare_nif_call :: "allocator \<Rightarrow> event list \<times> CallbackNifRes option" where
  "prepare_nif_call al =
     (if \<not> alloc_resource_ok al then ([], None)
      else if \<not> alloc_env_ok al then
        ([Alloc Res_block] @ enif_release_resource zeroed, None)
      else if \<not> mutex_create_ok al then
        ([Alloc Res_block, Alloc Env_piece, Free Env_piece]
           @ enif_release_resource (zeroed\<lparr>msg_env := True\<rparr>), None)
      else if \<not> cond_create_ok al then
        ([Alloc Res_block, Alloc Env_piece, Alloc Mutex_piece, Free Env_piece, Free Mutex_piece]
           @ enif_release_resource (zeroed\<lparr>msg_env := True, mtx := True\<rparr>), None)
      else
        ([Alloc Res_block, Alloc Env_piece, Alloc Mutex_piece, Alloc Cond_piece],
         Some (zeroed\<lparr>msg_env := True, mtx := True, cond := True,
                      return_value_set := False, return_value := kAtomNil\<rparr>)))"

text \<open>
  The pieces a trace allocates, in order, and the pieces held at its end. A piece can be
  released only while it is held: \<open>ledger\<close> is \<open>None\<close> for a trace that releases a piece
  that is not held, as a second \<^verbatim>\<open>enif_free_env\<close> or \<^verbatim>\<open>enif_mutex_destroy\<close> of the same
  pointer does.
\<close>

fun allocated :: "event list \<Rightarrow> piece list" where
  "allocated [] = []"
| "allocated (Alloc p # es) = p # allocated es"
| "allocated (Free p # es) = allocated es"

fun ledger :: "piece list \<Rightarrow> event list \<Rightarrow> piece list option" where
  "ledger ps [] = Some ps"
| "ledger ps (Alloc p # es) = ledger (ps @ [p]) es"
| "ledger ps (Free p # es) = (if p \<in> set ps then ledger (remove1 p ps) es else None)"

text \<open>How many of the four allocations succeed before the first one that fails.\<close>

definition succeeded :: "allocator \<Rightarrow> nat" where
  "succeeded al =
     (if \<not> alloc_resource_ok al then 0
      else if \<not> alloc_env_ok al then 1
      else if \<not> mutex_create_ok al then 2
      else if \<not> cond_create_ok al then 3
      else 4)"

fun frees :: "piece \<Rightarrow> event list \<Rightarrow> nat" where
  "frees p [] = 0"
| "frees p (Alloc q # es) = frees p es"
| "frees p (Free q # es) = (if p = q then Suc (frees p es) else frees p es)"


subsection \<open>The invoking thread and the evaluator\<close>

text \<open>
  \<^verbatim>\<open>make_nif_call\<close> runs on a native thread and \<^verbatim>\<open>nif_call_evaluated\<close> on a scheduler
  thread of the runtime. The state they share is the context record and the condition variable.
  \<^verbatim>\<open>nif_call_evaluated\<close> never takes the mutex, so the only thing that orders the two threads
  is the condition variable: the invoking thread is modelled by its program point, and each
  of its steps is one access to the shared state.

  \<^item> \<open>Test\<close>: holding the mutex, about to evaluate \<^verbatim>\<open>!callback_res->return_value_set\<close>;
  \<^item> \<open>Enter_wait\<close>: the test was true, \<^verbatim>\<open>enif_cond_wait\<close> not yet entered;
  \<^item> \<open>Blocked\<close>: asleep inside \<^verbatim>\<open>enif_cond_wait\<close>;
  \<^item> \<open>Copy\<close>: the loop is left, about to copy \<^verbatim>\<open>callback_res->return_value\<close>;
  \<^item> \<open>Done t\<close>: \<^verbatim>\<open>make_nif_call\<close> has returned \<open>t\<close>.
\<close>

datatype pc = Test | Enter_wait | Blocked | Copy | Done eterm

record sys =
  res :: CallbackNifRes
  pc :: pc
  envs :: "env \<Rightarrow> eterm list"
  mailbox :: "eterm list"
  signals :: nat

text \<open>
  \<open>envs st e\<close> lists the terms built in environment \<open>e\<close>, \<open>mailbox\<close> the messages sent to
  the evaluator, \<open>signals\<close> counts the calls of \<^verbatim>\<open>enif_cond_signal\<close>.
  \<^verbatim>\<open>enif_make_copy(dst, t)\<close> builds a term equal to \<open>t\<close> in \<open>dst\<close>.
\<close>

definition enif_make_copy :: "env \<Rightarrow> eterm \<Rightarrow> sys \<Rightarrow> eterm \<times> sys" where
  "enif_make_copy dst t st = (t, st\<lparr>envs := (envs st)(dst := envs st dst @ [t])\<rparr>)"

text \<open>
  The runtime's condition variable is outside the repository and behaves as condition
  variables do: \<^verbatim>\<open>enif_cond_signal\<close> wakes a thread that is waiting on the condition
  variable, if there is one, and has no effect otherwise. A woken thread takes the mutex
  again and goes back to the test of the loop. \<^verbatim>\<open>enif_cond_wait\<close> may also return with no
  signal at all (\<open>wakeup\<close>), which is why the source waits in a loop.
\<close>

definition wakeup :: "sys \<Rightarrow> sys" where
  "wakeup st = (if pc st = Blocked then st\<lparr>pc := Test\<rparr> else st)"

definition enif_cond_signal :: "sys \<Rightarrow> sys" where
  "enif_cond_signal st = wakeup (st\<lparr>signals := Suc (signals st)\<rparr>)"

text \<open>
  \<^verbatim>\<open>make_nif_call\<close> up to \<^verbatim>\<open>enif_mutex_lock\<close>: the early return of \<^verbatim>\<open>kAtomENOMEM\<close> is \<open>Inl\<close>,
  otherwise the message is built in the caller's environment, copied into the context's and
  sent.
\<close>

definition make_nif_call_begin :: "allocator \<Rightarrow> eterm \<Rightarrow> eterm \<Rightarrow> eterm + sys" where
  "make_nif_call_begin al fn args =
     (case snd (prepare_nif_call al) of
        None \<Rightarrow> Inl kAtomENOMEM
      | Some r \<Rightarrow>
          (let callback_term = Callback_term;
               msg = Tuple [fn, args, callback_term];
               st = \<lparr>res = r, pc = Test,
                     envs = (\<lambda>e. [])(Caller_env := [fn, args, callback_term, msg]),
                     mailbox = [], signals = 0\<rparr>;
               (msg', st') = enif_make_copy Msg_env msg st
           in Inr (st'\<lparr>mailbox := mailbox st' @ [msg']\<rparr>)))"

text \<open>
  One step of the invoking thread, from the wait loop to the return. The mutex is held by
  this thread alone, so \<^verbatim>\<open>enif_mutex_lock\<close> and \<^verbatim>\<open>enif_mutex_unlock\<close> are no steps of their
  own; the \<^verbatim>\<open>enif_release_resource\<close> before the return drops one of several references
  and destroys nothing.
\<close>

definition make_nif_call_step :: "sys \<Rightarrow> sys" where
  "make_nif_call_step st =
     (case pc st of
        Test \<Rightarrow> if \<not> return_value_set (res st) then st\<lparr>pc := Enter_wait\<rparr> else st\<lparr>pc := Copy\<rparr>
      | Enter_wait \<Rightarrow> st\<lparr>pc := Blocked\<rparr>
      | Blocked \<Rightarrow> st
      | Copy \<Rightarrow>
          (case enif_make_copy Caller_env (return_value (res st)) st of
             (t, st') \<Rightarrow> st'\<lparr>pc := Done t\<rparr>)
      | Done t \<Rightarrow> st)"

text \<open>\<^verbatim>\<open>nif_call_evaluated(env, argc, argv)\<close> with \<open>arg0 = argv[0]\<close> and \<open>arg1 = argv[1]\<close>.\<close>

definition nif_call_evaluated :: "sys \<Rightarrow> eterm \<Rightarrow> eterm \<Rightarrow> (nif_error + eterm) \<times> sys" where
  "nif_call_evaluated st arg0 arg1 =
     (if arg0 \<noteq> Callback_term then (Inl Badarg, st)
      else
        (case enif_make_copy Msg_env arg1 st of
           (t, st1) \<Rightarrow>
             (Inr (Atom ''ok''),
              enif_cond_signal
                (st1\<lparr>res := (res st1)\<lparr>return_value := t, return_value_set := True\<rparr>\<rparr>))))"

text \<open>
  A schedule says which thread moves next: the invoking thread takes a step, the evaluator
  calls \<^verbatim>\<open>nif_call_evaluated\<close>, or \<^verbatim>\<open>enif_cond_wait\<close> returns spuriously.
\<close>

datatype action = Invoker | Evaluator eterm eterm | Wakeup

fun step :: "sys \<Rightarrow> action \<Rightarrow> sys" where
  "step st Invoker = make_nif_call_step st"
| "step st (Evaluator arg0 arg1) = snd (nif_call_evaluated st arg0 arg1)"
| "step st Wakeup = wakeup st"

fun run :: "sys \<Rightarrow> action list \<Rightarrow> sys" where
  "run st [] = st"
| "run st (a # as) = run (step st a) as"

definition returned :: "sys \<Rightarrow> eterm option" where
  "returned st = (case pc st of Done t \<Rightarrow> Some t | _ \<Rightarrow> None)"

text \<open>
  \<^verbatim>\<open>make_nif_call\<close> under a schedule: \<open>Some t\<close> when it has returned \<open>t\<close> by the end of the
  schedule, \<open>None\<close> when it has not.
\<close>

definition make_nif_call :: "allocator \<Rightarrow> eterm \<Rightarrow> eterm \<Rightarrow> action list \<Rightarrow> eterm option" where
  "make_nif_call al fn args sch =
     (case make_nif_call_begin al fn args of
        Inl e \<Rightarrow> Some e
      | Inr st \<Rightarrow> returned (run st sch))"

definition all_ok :: allocator where
  "all_ok = \<lparr>alloc_resource_ok = True, alloc_env_ok = True,
             mutex_create_ok = True, cond_create_ok = True\<rparr>"

text \<open>
  The call of the specification's scenario, \<^verbatim>\<open>invoke(target, add, [1, 2])\<close>, at the point
  where the message has been sent and the invoking thread is about to test the flag.
\<close>

definition begun :: sys where
  "begun = projr (make_nif_call_begin all_ok (Atom ''add'') (Tuple [Integer 1, Integer 2]))"

text \<open>
  Whether an action is a call of \<^verbatim>\<open>nif_call_evaluated\<close> on the context of the call, and
  whether it is such a call with a value other than \<open>v\<close>.
\<close>

fun completes :: "action \<Rightarrow> bool" where
  "completes (Evaluator arg0 arg1) = (arg0 = Callback_term)"
| "completes Invoker = False"
| "completes Wakeup = False"

fun completes_other :: "eterm \<Rightarrow> action \<Rightarrow> bool" where
  "completes_other v (Evaluator arg0 arg1) = (arg0 = Callback_term \<and> arg1 \<noteq> v)"
| "completes_other v Invoker = False"
| "completes_other v Wakeup = False"

text \<open>
  Two invariants of the runs. \<open>in_loop\<close>: the flag is clear and the invoking thread is inside
  the wait loop. \<open>carries v\<close>: whatever the invoking thread reads from the result slot, or has
  returned, is \<open>v\<close>.
\<close>

definition in_loop :: "sys \<Rightarrow> bool" where
  "in_loop st =
     (\<not> return_value_set (res st) \<and> (pc st = Test \<or> pc st = Enter_wait \<or> pc st = Blocked))"

definition carries :: "eterm \<Rightarrow> sys \<Rightarrow> bool" where
  "carries v st =
     ((return_value_set (res st) \<longrightarrow> return_value (res st) = v) \<and>
      (pc st = Copy \<longrightarrow> return_value_set (res st)) \<and>
      (\<forall>t. pc st = Done t \<longrightarrow> t = v))"


section \<open>Properties of the array resources\<close>

subsection \<open>What each operation does to the store\<close>

lemma ArrayP_ctor_unresolved:
  "s t = None \<Longrightarrow> ArrayP_ctor s t = (\<lparr>ptr = None, err = Some Invalid\<rparr>, s)"
  by (simp add: ArrayP_ctor_def)

lemma ArrayP_ctor_zero:
  "s t = Some r \<Longrightarrow> refcount r = 0 \<Longrightarrow>
   ArrayP_ctor s t = (\<lparr>ptr = None, err = Some Deallocated\<rparr>, s)"
  by (simp add: ArrayP_ctor_def)

lemma ArrayP_ctor_nonzero:
  "s t = Some r \<Longrightarrow> refcount r \<noteq> 0 \<Longrightarrow>
   ArrayP_ctor s t = (\<lparr>ptr = Some t, err = None\<rparr>, s(t \<mapsto> r\<lparr>refcount := refcount r + 1\<rparr>))"
  by (simp add: ArrayP_ctor_def)

lemma ArrayP_dtor_valid:
  "ptr a = Some p \<Longrightarrow> s p = Some r \<Longrightarrow>
   ArrayP_dtor s a =
     s(p \<mapsto> r\<lparr>refcount := refcount r - 1,
               destructed := (if refcount r = 0 then Suc (destructed r) else destructed r)\<rparr>)"
  by (simp add: ArrayP_dtor_def fetch_sub_def destruct_array_def)

lemma ArrayP_dtor_invalid: "ptr a = None \<Longrightarrow> ArrayP_dtor s a = s"
  by (simp add: ArrayP_dtor_def)

lemma deallocate_first:
  "ptr a = Some p \<Longrightarrow> s p = Some r \<Longrightarrow> \<not> deleted r \<Longrightarrow>
   deallocate s a = (True, s(p \<mapsto> r\<lparr>deleted := True, refcount := refcount r - 1\<rparr>))"
  by (simp add: deallocate_def atomic_flag_test_and_set_def)

lemma deallocate_again:
  "ptr a = Some p \<Longrightarrow> s p = Some r \<Longrightarrow> deleted r \<Longrightarrow> deallocate s a = (False, s)"
  by (auto simp add: deallocate_def atomic_flag_test_and_set_def)

lemma deallocate_invalid: "ptr a = None \<Longrightarrow> deallocate s a = (False, s)"
  by (simp add: deallocate_def)

lemma free_array_resource:
  "s p = Some r \<Longrightarrow> free_array s (Some p) = s(p \<mapsto> r\<lparr>destructed := Suc (destructed r)\<rparr>)"
  by (simp add: free_array_def destruct_array_def)

text \<open>No operation clears the flag of a resource.\<close>

lemma array_step_deleted:
  assumes "s p = Some r" "deleted r"
  shows "\<exists>r'. array_step s x p = Some r' \<and> deleted r'"
proof (cases x)
  case (Acquire t)
  with assms show ?thesis by (auto simp: ArrayP_ctor_def split: option.splits)
next
  case (Release a)
  with assms show ?thesis
    by (auto simp: ArrayP_dtor_def fetch_sub_def destruct_array_def split: option.splits)
next
  case (Deallocate a)
  with assms show ?thesis
    by (auto simp: deallocate_def atomic_flag_test_and_set_def split: option.splits)
next
  case (Finalize obj)
  with assms show ?thesis
    by (auto simp: free_array_def destruct_array_def split: option.splits)
qed

lemma array_run_deleted:
  "s p = Some r \<Longrightarrow> deleted r \<Longrightarrow> \<exists>r'. array_run s xs p = Some r' \<and> deleted r'"
proof (induction xs arbitrary: s r)
  case Nil
  then show ?case by simp
next
  case (Cons x xs)
  from Cons.prems array_step_deleted [of s p r x]
  obtain r1 where "array_step s x p = Some r1" "deleted r1" by blast
  with Cons.IH [of "array_step s x" r1] show ?case by simp
qed

text \<open>
  A count of zero stays zero under every operation that does not go through an \<^verbatim>\<open>ArrayP\<close>
  pointing at the resource.
\<close>

lemma array_step_zero:
  assumes "s p = Some r" "refcount r = 0" "\<not> uses_ref p x"
  shows "\<exists>r'. array_step s x p = Some r' \<and> refcount r' = 0"
proof (cases x)
  case (Acquire t)
  with assms show ?thesis by (auto simp: ArrayP_ctor_def split: option.splits)
next
  case (Release a)
  with assms show ?thesis
    by (auto simp: ArrayP_dtor_def fetch_sub_def destruct_array_def split: option.splits)
next
  case (Deallocate a)
  with assms show ?thesis
    by (auto simp: deallocate_def atomic_flag_test_and_set_def split: option.splits)
next
  case (Finalize obj)
  with assms show ?thesis
    by (auto simp: free_array_def destruct_array_def split: option.splits)
qed

lemma array_run_zero:
  "s p = Some r \<Longrightarrow> refcount r = 0 \<Longrightarrow> \<forall>x \<in> set xs. \<not> uses_ref p x \<Longrightarrow>
   \<exists>r'. array_run s xs p = Some r' \<and> refcount r' = 0"
proof (induction xs arbitrary: s r)
  case Nil
  then show ?case by simp
next
  case (Cons x xs)
  from Cons.prems have "\<not> uses_ref p x" by simp
  with Cons.prems array_step_zero [of s p r x]
  obtain r1 where r1: "array_step s x p = Some r1" "refcount r1 = 0" by blast
  from Cons.prems have "\<forall>x \<in> set xs. \<not> uses_ref p x" by simp
  with r1 Cons.IH [of "array_step s x" r1] show ?case by simp
qed

text \<open>The scenario states used below, evaluated.\<close>

lemma created_eq: "created = store0 1 False 0"
  by (simp add: created_def create_array_resource_def store0_def)

lemma store0_lookup:
  "store0 c d n 0 = Some \<lparr>object = (), refcount = c, deleted = d, destructed = n\<rparr>"
  by (simp add: store0_def)

lemma store0_update:
  "(store0 c d n)(0 \<mapsto> \<lparr>object = (), refcount = c', deleted = d', destructed = n'\<rparr>) =
   store0 c' d' n'"
  by (simp add: store0_def)

lemma store0_eq_iff: "store0 c d n = store0 c' d' n' \<longleftrightarrow> c = c' \<and> d = d' \<and> n = n'"
  by (auto simp: store0_def dest: map_upd_eqD1)

lemma acquire_store0:
  "c \<noteq> 0 \<Longrightarrow> ArrayP_ctor (store0 c d n) 0 = (ref0, store0 (c + 1) d n)"
  by (simp add: ArrayP_ctor_def store0_def ref0_def)

lemma acquire_store0_zero:
  "ArrayP_ctor (store0 0 d n) 0 = (\<lparr>ptr = None, err = Some Deallocated\<rparr>, store0 0 d n)"
  by (simp add: ArrayP_ctor_def store0_def)

lemma release_store0:
  "ArrayP_dtor (store0 c d n) ref0 = store0 (c - 1) d (if c = 0 then Suc n else n)"
  by (simp add: ArrayP_dtor_def fetch_sub_def destruct_array_def store0_def ref0_def)

lemma deallocate_store0:
  "deallocate (store0 c d n) ref0 =
     (if d then (False, store0 c d n) else (True, store0 (c - 1) True n))"
  by (simp add: deallocate_def atomic_flag_test_and_set_def store0_def ref0_def)

lemma free_array_store0: "free_array (store0 c d n) (Some 0) = store0 c d (Suc n)"
  by (simp add: free_array_def destruct_array_def store0_def)

lemmas store0_simps =
  created_eq acquire_store0 acquire_store0_zero release_store0 deallocate_store0
  free_array_store0 store0_eq_iff


subsection \<open>A whole life of a resource\<close>

text \<open>
  With fewer than \<open>2 ^ 32 - 1\<close> live references the count never reads zero while a
  reference is alive, so no release ever finds the value zero before its decrement.
\<close>

lemma expected_count_simps:
  "expected_count (Suc k) d = expected_count k d + 1"
  "0 < k \<Longrightarrow> expected_count (k - 1) d = expected_count k d - 1"
  "expected_count k True = expected_count k False - 1"
  "expected_count 0 True = 0"
  "expected_count 0 False = 1"
  by (cases k; simp add: expected_count_def)+

lemma expected_count_nonzero:
  assumes "0 < k" "k < 2 ^ 32 - 1"
  shows "expected_count k d \<noteq> 0"
proof (cases d)
  case True
  from assms have "(of_nat k :: 32 word) \<noteq> 0"
    by (intro of_nat_neq_0) simp_all
  with True show ?thesis by (simp add: expected_count_def)
next
  case False
  from assms have "(of_nat (Suc k) :: 32 word) \<noteq> 0"
    by (intro of_nat_neq_0) simp_all
  with False show ?thesis by (simp add: expected_count_def)
qed

lemma life_invariant:
  assumes "life (k, store0 (expected_count k d) d 0) ops = Some (k', s')"
    and "k + length ops < 2 ^ 32 - 1"
  shows "\<exists>d'. s' = store0 (expected_count k' d') d' 0"
  using assms
proof (induction ops arbitrary: k d)
  case Nil
  then show ?case by auto
next
  case (Cons x xs)
  from Cons.prems(2) have len: "k + length xs < 2 ^ 32 - 1" "Suc k + length xs < 2 ^ 32 - 1"
    "k < 2 ^ 32 - 1"
    by simp_all
  show ?case
  proof (cases x)
    case (Acquire t)
    show ?thesis
    proof (cases "expected_count k d = 0")
      case True
      with Cons.prems(1) Acquire
      have "life (k, store0 (expected_count k d) d 0) xs = Some (k', s')"
        by (simp add: store0_simps is_valid_def split: if_splits)
      then show ?thesis using len(1) by (rule Cons.IH)
    next
      case False
      with Cons.prems(1) Acquire
      have "life (Suc k, store0 (expected_count (Suc k) d) d 0) xs = Some (k', s')"
        by (simp add: store0_simps is_valid_def ref0_def expected_count_simps(1)
            split: if_splits)
      then show ?thesis using len(2) by (rule Cons.IH)
    qed
  next
    case (Release a)
    with Cons.prems(1) have k: "0 < k" and a: "a = ref0"
      by (simp_all split: if_splits)
    from k len(3) have "expected_count k d \<noteq> 0"
      by (rule expected_count_nonzero)
    moreover from k have "expected_count (k - 1) d = expected_count k d - 1"
      by (rule expected_count_simps(2))
    ultimately have "life (k - 1, store0 (expected_count (k - 1) d) d 0) xs = Some (k', s')"
      using Cons.prems(1) Release k a by (simp add: store0_simps)
    moreover from len(1) have "k - 1 + length xs < 2 ^ 32 - 1" by simp
    ultimately show ?thesis by (rule Cons.IH)
  next
    case (Deallocate a)
    with Cons.prems(1) have k: "0 < k" and a: "a = ref0"
      by (simp_all split: if_splits)
    show ?thesis
    proof (cases d)
      case True
      with Cons.prems(1) Deallocate k a
      have "life (k, store0 (expected_count k d) d 0) xs = Some (k', s')"
        by (simp add: store0_simps)
      then show ?thesis using len(1) by (rule Cons.IH)
    next
      case False
      with Cons.prems(1) Deallocate k a
      have "life (k, store0 (expected_count k True) True 0) xs = Some (k', s')"
        by (simp add: store0_simps expected_count_simps(3))
      then show ?thesis using len(1) by (rule Cons.IH)
    qed
  next
    case (Finalize obj)
    with Cons.prems(1) show ?thesis by simp
  qed
qed

text \<open>
  So in every life of a created resource that callers can produce, through acquires,
  releases and \<^verbatim>\<open>deallocate\<close>, the destructor of the object has not run; and once all
  references are released the count reads 0 if \<^verbatim>\<open>deallocate\<close> was called and 1 if not.
\<close>

lemma destructor_never_runs_in_a_life:
  assumes "life (0, created) ops = Some (k, s)" and "length ops < 2 ^ 32 - 1"
  shows "destructed_of s 0 = Some 0 \<and>
         (k = 0 \<longrightarrow> count_of s 0 = Some (if deleted_of s 0 = Some True then 0 else 1))"
proof -
  from assms life_invariant [of 0 False ops k s]
  obtain d' where s: "s = store0 (expected_count k d') d' 0"
    by (auto simp: created_eq expected_count_simps)
  then show ?thesis
    by (simp add: destructed_of_def count_of_def deleted_of_def store0_lookup
        expected_count_simps)
qed

subsection \<open>Acquiring a reference\<close>

text \<open>
  Claim C8. For every term passed to the constructor of \<^verbatim>\<open>ArrayP\<close>: if the term does not
  resolve to a resource of type \<^verbatim>\<open>ARRAY_TYPE\<close>, the constructor fails with \<open>Invalid\<close>; if the
  count of the resource reads zero, it fails with \<open>Deallocated\<close>; otherwise it increments the
  count and yields a valid reference to the resource. A failed construction changes nothing.
\<close>

theorem ArrayP_ctor_outcomes:
  "(s t = None \<longrightarrow> ArrayP_ctor s t = (\<lparr>ptr = None, err = Some Invalid\<rparr>, s)) \<and>
   (\<forall>r. s t = Some r \<and> refcount r = 0 \<longrightarrow>
        ArrayP_ctor s t = (\<lparr>ptr = None, err = Some Deallocated\<rparr>, s)) \<and>
   (\<forall>r. s t = Some r \<and> refcount r \<noteq> 0 \<longrightarrow>
        ArrayP_ctor s t =
          (\<lparr>ptr = Some t, err = None\<rparr>, s(t \<mapsto> r\<lparr>refcount := refcount r + 1\<rparr>)) \<and>
        is_valid (fst (ArrayP_ctor s t)))"
  by (simp add: ArrayP_ctor_def is_valid_def)

theorem ArrayP_ctor_outcomes_witness:
  "(Map.empty :: unit resources) 0 = None \<and>
   ArrayP_ctor (Map.empty :: unit resources) 0 =
     (\<lparr>ptr = None, err = Some Invalid\<rparr>, Map.empty) \<and>
   store0 0 True 0 0 = Some \<lparr>object = (), refcount = 0, deleted = True, destructed = 0\<rparr> \<and>
   ArrayP_ctor (store0 0 True 0) 0 =
     (\<lparr>ptr = None, err = Some Deallocated\<rparr>, store0 0 True 0) \<and>
   store0 1 False 0 0 = Some \<lparr>object = (), refcount = 1, deleted = False, destructed = 0\<rparr> \<and>
   ArrayP_ctor (store0 1 False 0) 0 = (\<lparr>ptr = Some 0, err = None\<rparr>, store0 2 False 0)"
  using ArrayP_ctor_outcomes [of "Map.empty :: unit resources" 0]
        ArrayP_ctor_outcomes [of "store0 0 True 0" 0]
        ArrayP_ctor_outcomes [of "store0 1 False 0" 0]
  by (simp add: store0_lookup store0_update)

text \<open>
  Claim C3, as stated, fails. After \<^verbatim>\<open>create\<close>, a first acquire and a successful \<^verbatim>\<open>deallocate\<close>
  through the acquired reference, the flag is set and the count reads 1; the constructor looks
  at the count only, so a further acquire succeeds and yields a valid reference.
\<close>

theorem acquire_after_deallocate_counterexample:
  "deallocate (array_run created [Acquire 0]) ref0 = (True, store0 1 True 0) \<and>
   deleted_of (store0 1 True 0) 0 = Some True \<and>
   ArrayP_ctor (store0 1 True 0) 0 = (ref0, store0 2 True 0) \<and>
   is_valid ref0 \<and> err ref0 = None"
proof -
  have "is_valid ref0 \<and> err ref0 = None"
    by (simp add: is_valid_def ref0_def)
  then show ?thesis
    by (simp add: store0_simps deleted_of_def store0_lookup)
qed

text \<open>
  Claim C3, amended. For every resource whose count reads zero, the constructor fails with
  \<open>Deallocated\<close>, yields no valid reference and leaves the store as it is; and so does every
  later acquire, whatever happens in between, as long as nothing is done through an
  \<^verbatim>\<open>ArrayP\<close> that still points at the resource. The flag plays no part.
\<close>

theorem acquire_fails_while_count_is_zero:
  assumes "s t = Some r" and "refcount r = 0" and "\<forall>x \<in> set ops. \<not> uses_ref t x"
  shows "ArrayP_ctor (array_run s ops) t =
           (\<lparr>ptr = None, err = Some Deallocated\<rparr>, array_run s ops) \<and>
         \<not> is_valid (fst (ArrayP_ctor (array_run s ops) t))"
proof -
  from assms array_run_zero [of s t r ops]
  obtain r' where "array_run s ops t = Some r'" "refcount r' = 0" by blast
  then show ?thesis by (simp add: ArrayP_ctor_zero is_valid_def)
qed

theorem acquire_fails_while_count_is_zero_witness:
  "store0 0 True 0 0 = Some \<lparr>object = (), refcount = 0, deleted = True, destructed = 0\<rparr> \<and>
   refcount \<lparr>object = (), refcount = 0, deleted = True, destructed = 0\<rparr> = 0 \<and>
   \<not> uses_ref 0 (Acquire 0) \<and> \<not> uses_ref 0 (Finalize (Some 0)) \<and>
   ArrayP_ctor (array_run (store0 0 True 0) [Acquire 0, Finalize (Some 0)]) 0 =
     (\<lparr>ptr = None, err = Some Deallocated\<rparr>,
      array_run (store0 0 True 0) [Acquire 0, Finalize (Some 0)]) \<and>
   array_run (store0 0 True 0) [Acquire 0, Finalize (Some 0)] = store0 0 True 1"
proof -
  have h1: "store0 0 True 0 0 =
      Some \<lparr>object = (), refcount = 0, deleted = True, destructed = 0\<rparr>"
    by (rule store0_lookup)
  have h2: "refcount \<lparr>object = (), refcount = 0, deleted = True, destructed = 0\<rparr> = 0"
    by simp
  have h3: "\<forall>x \<in> set [Acquire 0, Finalize (Some 0)]. \<not> uses_ref 0 x"
    by simp
  have "array_run (store0 0 True 0) [Acquire 0, Finalize (Some 0)] = store0 0 True 1"
    by (simp add: store0_simps)
  with h1 h2 h3
    acquire_fails_while_count_is_zero
      [of "store0 0 True 0" 0 "\<lparr>object = (), refcount = 0, deleted = True, destructed = 0\<rparr>"
          "[Acquire 0, Finalize (Some 0)]"]
  show ?thesis by simp
qed

subsection \<open>Releasing a reference\<close>

text \<open>
  Claim C1 does not hold of the code. \<^verbatim>\<open>fetch_sub\<close> returns the count held before the
  subtraction and the destructor of \<^verbatim>\<open>ArrayP\<close> compares that value with zero. After
  \<^verbatim>\<open>create\<close>, acquire and \<^verbatim>\<open>deallocate\<close> the count reads 1: the release takes it from 1 to 0 and
  the destructor of the object does not run. The destructor of the object runs on the
  transition from 0 to -1 instead.
\<close>

theorem release_destructs_at_wrong_transition:
  "array_run created [Acquire 0, Deallocate ref0] = store0 1 True 0 \<and>
   ArrayP_dtor (store0 1 True 0) ref0 = store0 0 True 0 \<and>
   ArrayP_dtor (store0 0 True 0) ref0 = store0 (- 1) True 1"
  by (simp add: store0_simps)

text \<open>
  Claim C2 does not hold of the code. Two nested acquires, an explicit \<^verbatim>\<open>deallocate\<close> and the
  two releases bring the count to zero with the flag set, and the destructor of the object has
  not run at all. Acquire and release pairs alone bring the count back to 1, and the
  destructor has not run either.
\<close>

theorem destructor_never_runs_before_finalizer:
  "array_run created [Acquire 0, Acquire 0, Deallocate ref0, Release ref0, Release ref0] =
     store0 0 True 0 \<and>
   destructed_of (store0 0 True 0) 0 = Some 0 \<and>
   array_run created [Acquire 0, Release ref0, Acquire 0, Release ref0] = store0 1 False 0 \<and>
   destructed_of (store0 1 False 0) 0 = Some 0"
  by (simp add: store0_simps destructed_of_def store0_lookup)

text \<open>
  Claim C4 does not hold of the code. In the scenario \<^verbatim>\<open>create\<close>, acquire, release,
  \<^verbatim>\<open>deallocate\<close> the count reads 1, 2, 1, 0 and a later acquire fails with \<open>Deallocated\<close>, but
  the destructor of the object has not run when the count is 0. The same holds when
  \<^verbatim>\<open>deallocate\<close> is called through the acquired reference before its release, the order in
  which the C++ code can call it, and when it is called through a second reference of its
  own.
\<close>

theorem scenario_create_acquire_release_deallocate:
  "count_of created 0 = Some 1 \<and>
   ArrayP_ctor created 0 = (ref0, store0 2 False 0) \<and>
   ArrayP_dtor (store0 2 False 0) ref0 = store0 1 False 0 \<and>
   deallocate (store0 1 False 0) ref0 = (True, store0 0 True 0) \<and>
   destructed_of (store0 0 True 0) 0 = Some 0 \<and>
   ArrayP_ctor (store0 0 True 0) 0 = (\<lparr>ptr = None, err = Some Deallocated\<rparr>, store0 0 True 0) \<and>
   array_run created [Acquire 0, Release ref0, Deallocate ref0] = store0 0 True 0 \<and>
   array_run created [Acquire 0, Deallocate ref0, Release ref0] = store0 0 True 0 \<and>
   array_run created [Acquire 0, Release ref0, Acquire 0, Deallocate ref0, Release ref0] =
     store0 0 True 0"
  by (simp add: store0_simps count_of_def destructed_of_def store0_lookup)


subsection \<open>Explicit deallocation\<close>

text \<open>
  Claim C6. For every resource whose flag is clear, the first call of \<^verbatim>\<open>deallocate\<close> through a
  reference to it wins the test-and-set: it sets the flag, decrements the count by one and
  returns true. Every later call through a reference to the same resource, whatever
  operations come in between, returns false and leaves the store, and so the count and the
  flag, unchanged.
\<close>

theorem deallocate_one_shot:
  assumes "ptr a = Some p" and "s p = Some r" and "\<not> deleted r"
  shows "deallocate s a = (True, s(p \<mapsto> r\<lparr>deleted := True, refcount := refcount r - 1\<rparr>)) \<and>
         (\<forall>ops b. ptr b = Some p \<longrightarrow>
            deallocate (array_run (snd (deallocate s a)) ops) b =
              (False, array_run (snd (deallocate s a)) ops))"
proof (intro conjI allI impI)
  show first: "deallocate s a = (True, s(p \<mapsto> r\<lparr>deleted := True, refcount := refcount r - 1\<rparr>))"
    using assms by (rule deallocate_first)
  fix ops and b :: ArrayP
  assume b: "ptr b = Some p"
  let ?s1 = "snd (deallocate s a)"
  have "?s1 p = Some (r\<lparr>deleted := True, refcount := refcount r - 1\<rparr>)"
    by (simp add: first)
  with array_run_deleted [of ?s1 p _ ops]
  obtain r' where r': "array_run ?s1 ops p = Some r'" "deleted r'" by auto
  with b show "deallocate (array_run ?s1 ops) b = (False, array_run ?s1 ops)"
    by (simp add: deallocate_again)
qed

theorem deallocate_one_shot_witness:
  "ptr ref0 = Some 0 \<and>
   store0 2 False 0 0 = Some \<lparr>object = (), refcount = 2, deleted = False, destructed = 0\<rparr> \<and>
   \<not> deleted \<lparr>object = (), refcount = 2, deleted = False, destructed = 0\<rparr> \<and>
   deallocate (store0 2 False 0) ref0 = (True, store0 1 True 0) \<and>
   array_run (store0 1 True 0) [Acquire 0, Release ref0] = store0 1 True 0 \<and>
   deallocate (array_run (store0 1 True 0) [Acquire 0, Release ref0]) ref0 =
     (False, store0 1 True 0)"
proof -
  let ?r = "\<lparr>object = (), refcount = 2, deleted = False, destructed = 0\<rparr>"
  have h1: "ptr ref0 = Some 0"
    by (simp add: ref0_def)
  have h2: "store0 2 False 0 0 = Some ?r"
    by (rule store0_lookup)
  have h3: "\<not> deleted ?r"
    by simp
  have first: "deallocate (store0 2 False 0) ref0 = (True, store0 1 True 0)"
    using deallocate_one_shot [of ref0 0 "store0 2 False 0" ?r] h1 h2 h3
    by (simp add: store0_update)
  have between: "array_run (store0 1 True 0) [Acquire 0, Release ref0] = store0 1 True 0"
    by (simp add: store0_simps)
  have "deallocate (array_run (snd (deallocate (store0 2 False 0) ref0))
            [Acquire 0, Release ref0]) ref0 =
          (False, array_run (snd (deallocate (store0 2 False 0) ref0))
            [Acquire 0, Release ref0])"
    using deallocate_one_shot [of ref0 0 "store0 2 False 0" ?r] h1 h2 h3 by blast
  with first between h1 h2 h3 show ?thesis by simp
qed

subsection \<open>The destructor hook of the resource type\<close>

text \<open>
  Claim C9. For every resource, whatever its count and its flag, \<^verbatim>\<open>free_array\<close> runs the
  destructor of the object once more and changes nothing else. So when the release of a
  reference has already run the destructor (the count read zero at that release), the
  garbage collector's call of \<^verbatim>\<open>free_array\<close> runs it a second time.
\<close>

theorem free_array_unconditional:
  assumes "s p = Some r"
  shows "free_array s (Some p) = s(p \<mapsto> r\<lparr>destructed := Suc (destructed r)\<rparr>) \<and>
         (ptr a = Some p \<and> refcount r = 0 \<longrightarrow>
            destructed_of (ArrayP_dtor s a) p = Some (Suc (destructed r)) \<and>
            destructed_of (free_array (ArrayP_dtor s a) (Some p)) p =
              Some (Suc (Suc (destructed r))))"
  using assms
  by (simp add: free_array_resource ArrayP_dtor_valid destructed_of_def)

theorem free_array_unconditional_witness:
  "store0 0 True 0 0 = Some \<lparr>object = (), refcount = 0, deleted = True, destructed = 0\<rparr> \<and>
   ptr ref0 = Some 0 \<and>
   refcount \<lparr>object = (), refcount = 0, deleted = True, destructed = 0\<rparr> = 0 \<and>
   free_array (store0 0 True 0) (Some 0) = store0 0 True 1 \<and>
   destructed_of (ArrayP_dtor (store0 0 True 0) ref0) 0 = Some 1 \<and>
   destructed_of (free_array (ArrayP_dtor (store0 0 True 0) ref0) (Some 0)) 0 = Some 2"
proof -
  let ?r = "\<lparr>object = (), refcount = 0, deleted = True, destructed = 0\<rparr>"
  have h1: "store0 0 True 0 0 = Some ?r"
    by (rule store0_lookup)
  have h2: "ptr ref0 = Some 0"
    by (simp add: ref0_def)
  from h1 h2 free_array_unconditional [of "store0 0 True 0" 0 ?r ref0]
  show ?thesis by (simp add: store0_update numeral_2_eq_2)
qed


section \<open>Properties of the call bridge\<close>

subsection \<open>Preparing a context\<close>

lemma prepare_nif_call_all_ok:
  "prepare_nif_call all_ok =
     ([Alloc Res_block, Alloc Env_piece, Alloc Mutex_piece, Alloc Cond_piece],
      Some \<lparr>msg_env = True, mtx = True, cond = True,
            return_value = kAtomNil, return_value_set = False\<rparr>)"
  by (simp add: prepare_nif_call_def all_ok_def zeroed_def)

text \<open>
  What holds of \<^verbatim>\<open>prepare_nif_call\<close>. It allocates the resource block, the environment,
  the mutex and the condition variable in that order and stops at the first allocation that
  fails; it returns \<^verbatim>\<open>NULL\<close> exactly when one fails, and \<^verbatim>\<open>make_nif_call\<close> then returns
  \<^verbatim>\<open>kAtomENOMEM\<close>. On success the four pieces are held and the result slot is empty.
\<close>

lemma prepare_nif_call_allocates_in_order:
  "allocated (fst (prepare_nif_call al)) =
     take (succeeded al) [Res_block, Env_piece, Mutex_piece, Cond_piece]"
  by (simp add: prepare_nif_call_def succeeded_def enif_release_resource_def
      destruct_nif_call_res_def zeroed_def)

lemma prepare_nif_call_fails_iff:
  "snd (prepare_nif_call al) = None \<longleftrightarrow> succeeded al < 4"
  by (simp add: prepare_nif_call_def succeeded_def)

lemma make_nif_call_enomem:
  "snd (prepare_nif_call al) = None \<Longrightarrow> make_nif_call al fn args sch = Some kAtomENOMEM"
  by (simp add: make_nif_call_def make_nif_call_begin_def)

lemma prepare_nif_call_success:
  "succeeded al = 4 \<Longrightarrow>
   prepare_nif_call al =
     ([Alloc Res_block, Alloc Env_piece, Alloc Mutex_piece, Alloc Cond_piece],
      Some \<lparr>msg_env = True, mtx = True, cond = True,
            return_value = kAtomNil, return_value_set = False\<rparr>) \<and>
   ledger [] (fst (prepare_nif_call al)) =
     Some [Res_block, Env_piece, Mutex_piece, Cond_piece]"
  by (simp add: prepare_nif_call_def succeeded_def zeroed_def split: if_splits)

text \<open>
  When the resource block or the environment cannot be allocated, the clean-up is as it
  should be: what was allocated is released once and nothing is held at the return.
\<close>

lemma prepare_nif_call_clean_paths:
  "succeeded al < 2 \<Longrightarrow>
   snd (prepare_nif_call al) = None \<and> ledger [] (fst (prepare_nif_call al)) = Some []"
  by (simp add: prepare_nif_call_def succeeded_def enif_release_resource_def
      destruct_nif_call_res_def zeroed_def split: if_splits)

text \<open>
  Claim C7 does not hold of the code. The order of the allocations and the return of
  \<^verbatim>\<open>NULL\<close> are as the claim says, but the clean-up is not. When \<^verbatim>\<open>enif_mutex_create\<close> fails,
  \<^verbatim>\<open>prepare_nif_call\<close> frees the environment and leaves \<^verbatim>\<open>res->msg_env\<close> set; its
  \<^verbatim>\<open>enif_release_resource\<close> then runs \<^verbatim>\<open>destruct_nif_call_res\<close>, which frees every pointer that
  is not \<^verbatim>\<open>NULL\<close>: the environment is freed a second time when it is no longer held. When
  \<^verbatim>\<open>enif_cond_create\<close> fails, the environment and the mutex are both released twice. The
  destructor hook resets each pointer after releasing it; \<^verbatim>\<open>prepare_nif_call\<close> does not.
\<close>

theorem prepare_nif_call_double_free:
  "prepare_nif_call (all_ok\<lparr>mutex_create_ok := False\<rparr>) =
     ([Alloc Res_block, Alloc Env_piece, Free Env_piece, Free Env_piece, Free Res_block],
      None) \<and>
   frees Env_piece (fst (prepare_nif_call (all_ok\<lparr>mutex_create_ok := False\<rparr>))) = 2 \<and>
   ledger [] [Alloc Res_block, Alloc Env_piece, Free Env_piece] = Some [Res_block] \<and>
   ledger [] (fst (prepare_nif_call (all_ok\<lparr>mutex_create_ok := False\<rparr>))) = None \<and>
   prepare_nif_call (all_ok\<lparr>cond_create_ok := False\<rparr>) =
     ([Alloc Res_block, Alloc Env_piece, Alloc Mutex_piece, Free Env_piece, Free Mutex_piece,
       Free Mutex_piece, Free Env_piece, Free Res_block],
      None) \<and>
   frees Env_piece (fst (prepare_nif_call (all_ok\<lparr>cond_create_ok := False\<rparr>))) = 2 \<and>
   frees Mutex_piece (fst (prepare_nif_call (all_ok\<lparr>cond_create_ok := False\<rparr>))) = 2 \<and>
   ledger [] (fst (prepare_nif_call (all_ok\<lparr>cond_create_ok := False\<rparr>))) = None"
  by (simp add: prepare_nif_call_def all_ok_def enif_release_resource_def
      destruct_nif_call_res_def zeroed_def)

text \<open>
  The double release happens on every run in which the mutex or the condition variable is
  the first allocation to fail, and on no other.
\<close>

lemma prepare_nif_call_ledger:
  "ledger [] (fst (prepare_nif_call al)) = None \<longleftrightarrow> succeeded al = 2 \<or> succeeded al = 3"
  by (simp add: prepare_nif_call_def succeeded_def enif_release_resource_def
      destruct_nif_call_res_def zeroed_def)

subsection \<open>Completing a call\<close>

lemma begun_eq:
  "begun =
     \<lparr>res = \<lparr>msg_env = True, mtx = True, cond = True,
              return_value = kAtomNil, return_value_set = False\<rparr>,
      pc = Test,
      envs = (\<lambda>e. [])
        (Caller_env := [Atom ''add'', Tuple [Integer 1, Integer 2], Callback_term,
                        Tuple [Atom ''add'', Tuple [Integer 1, Integer 2], Callback_term]],
         Msg_env := [Tuple [Atom ''add'', Tuple [Integer 1, Integer 2], Callback_term]]),
      mailbox = [Tuple [Atom ''add'', Tuple [Integer 1, Integer 2], Callback_term]],
      signals = 0\<rparr>"
  by (simp add: begun_def make_nif_call_begin_def prepare_nif_call_all_ok enif_make_copy_def
      Let_def)

text \<open>
  Claim C10. For every context whose result slot is already set, a further call of
  \<^verbatim>\<open>nif_call_evaluated\<close> on it is not rejected: it copies the new value into the context's
  environment, overwrites the result slot with it, leaves the flag set, signals the
  condition variable once more and returns \<^verbatim>\<open>ok\<close>. The only error the function has is
  \<^verbatim>\<open>badarg\<close>, for a first argument that is not the context's resource term.
\<close>

theorem nif_call_evaluated_again:
  assumes "return_value_set (res st)"
  shows "fst (nif_call_evaluated st Callback_term v) = Inr (Atom ''ok'') \<and>
         return_value (res (snd (nif_call_evaluated st Callback_term v))) = v \<and>
         return_value_set (res (snd (nif_call_evaluated st Callback_term v))) \<and>
         signals (snd (nif_call_evaluated st Callback_term v)) = Suc (signals st) \<and>
         envs (snd (nif_call_evaluated st Callback_term v)) Msg_env = envs st Msg_env @ [v] \<and>
         (\<forall>arg0. fst (nif_call_evaluated st arg0 v) =
            (if arg0 = Callback_term then Inr (Atom ''ok'') else Inl Badarg))"
  by (simp add: nif_call_evaluated_def enif_make_copy_def enif_cond_signal_def wakeup_def)

theorem nif_call_evaluated_again_witness:
  "return_value_set (res (run begun [Evaluator Callback_term (Integer 3)])) \<and>
   return_value (res (run begun [Evaluator Callback_term (Integer 3)])) = Integer 3 \<and>
   fst (nif_call_evaluated (run begun [Evaluator Callback_term (Integer 3)])
          Callback_term (Integer 4)) = Inr (Atom ''ok'') \<and>
   return_value (res (snd (nif_call_evaluated (run begun [Evaluator Callback_term (Integer 3)])
          Callback_term (Integer 4)))) = Integer 4 \<and>
   return_value_set (res (snd (nif_call_evaluated
          (run begun [Evaluator Callback_term (Integer 3)]) Callback_term (Integer 4)))) \<and>
   signals (snd (nif_call_evaluated (run begun [Evaluator Callback_term (Integer 3)])
          Callback_term (Integer 4))) = 2"
proof -
  let ?st = "run begun [Evaluator Callback_term (Integer 3)]"
  have h: "return_value_set (res ?st)" "return_value (res ?st) = Integer 3" "signals ?st = 1"
    by (simp_all add: begun_eq nif_call_evaluated_def enif_make_copy_def enif_cond_signal_def
        wakeup_def)
  from h nif_call_evaluated_again [of ?st "Integer 4"]
  show ?thesis by (simp add: numeral_2_eq_2 del: run.simps)
qed

subsection \<open>The invoking thread against the evaluator\<close>

lemma make_nif_call_begin_ok:
  "\<exists>st. make_nif_call_begin all_ok fn args = Inr st \<and> pc st = Test \<and>
        \<not> return_value_set (res st) \<and> mailbox st = [Tuple [fn, args, Callback_term]]"
  by (simp add: make_nif_call_begin_def prepare_nif_call_all_ok enif_make_copy_def Let_def)

lemma run_append: "run st (xs @ ys) = run (run st xs) ys"
  by (induction xs arbitrary: st) simp_all

lemma run_Invoker_Blocked: "pc st = Blocked \<Longrightarrow> run st (replicate n Invoker) = st"
  by (induction n) (simp_all add: make_nif_call_step_def)

text \<open>As long as nobody completes the call, \<^verbatim>\<open>make_nif_call\<close> does not return.\<close>

lemma step_in_loop: "in_loop st \<Longrightarrow> \<not> completes a \<Longrightarrow> in_loop (step st a)"
  by (cases a)
     (auto simp: in_loop_def make_nif_call_step_def nif_call_evaluated_def wakeup_def)

lemma run_in_loop:
  "in_loop st \<Longrightarrow> \<forall>a \<in> set sch. \<not> completes a \<Longrightarrow> in_loop (run st sch)"
  by (induction sch arbitrary: st) (simp_all add: step_in_loop)

lemma make_nif_call_blocks_without_completion:
  assumes "\<forall>a \<in> set sch. \<not> completes a"
  shows "make_nif_call all_ok fn args sch = None"
proof -
  obtain st where st: "make_nif_call_begin all_ok fn args = Inr st" "pc st = Test"
      "\<not> return_value_set (res st)"
    using make_nif_call_begin_ok by blast
  then have "in_loop st" by (simp add: in_loop_def)
  with assms have "in_loop (run st sch)" by (simp add: run_in_loop)
  then have "returned (run st sch) = None"
    by (auto simp: in_loop_def returned_def)
  with st(1) show ?thesis by (simp add: make_nif_call_def)
qed

text \<open>
  When every completion of the call carries the value \<open>v\<close>, a \<^verbatim>\<open>make_nif_call\<close> that returns
  returns \<open>v\<close>: the round trip through the two copies preserves the value.
\<close>

lemma step_carries: "carries v st \<Longrightarrow> \<not> completes_other v a \<Longrightarrow> carries v (step st a)"
  by (cases a)
     (auto simp: carries_def make_nif_call_step_def nif_call_evaluated_def wakeup_def
        enif_cond_signal_def enif_make_copy_def split: pc.splits)

lemma run_carries:
  "carries v st \<Longrightarrow> \<forall>a \<in> set sch. \<not> completes_other v a \<Longrightarrow> carries v (run st sch)"
  by (induction sch arbitrary: st) (simp_all add: step_carries)

lemma make_nif_call_round_trip:
  assumes "\<forall>a \<in> set sch. \<not> completes_other v a"
    and "make_nif_call all_ok fn args sch = Some t"
  shows "t = v"
proof -
  obtain st where st: "make_nif_call_begin all_ok fn args = Inr st" "pc st = Test"
      "\<not> return_value_set (res st)"
    using make_nif_call_begin_ok by blast
  then have "carries v st" by (simp add: carries_def)
  with assms(1) have "carries v (run st sch)" by (simp add: run_carries)
  moreover from assms(2) st(1) have "pc (run st sch) = Done t"
    by (simp add: make_nif_call_def returned_def split: pc.splits)
  ultimately show ?thesis by (simp add: carries_def)
qed

text \<open>
  A completion that finds the invoking thread at the test of the loop, or asleep in
  \<^verbatim>\<open>enif_cond_wait\<close>, lets it return the value after two more steps.
\<close>

lemma complete_then_return:
  assumes "pc st = Test \<or> pc st = Blocked"
  shows "returned (run st [Evaluator Callback_term v, Invoker, Invoker]) = Some v"
  using assms
  by (auto simp: make_nif_call_step_def nif_call_evaluated_def wakeup_def
        enif_cond_signal_def enif_make_copy_def returned_def)

text \<open>
  The scenario of the specification: the evaluator computes \<open>add(1, 2) = 3\<close> and completes
  the call, and \<^verbatim>\<open>make_nif_call\<close> returns \<open>3\<close>, whether the completion comes before the
  first test of the flag or while the invoking thread is asleep.
\<close>

lemma invoke_add_scenario:
  "returned (run begun [Evaluator Callback_term (Integer 3), Invoker, Invoker]) =
     Some (Integer 3) \<and>
   returned (run begun [Invoker, Invoker, Evaluator Callback_term (Integer 3), Invoker, Invoker]) =
     Some (Integer 3)"
  by (simp add: begun_eq make_nif_call_step_def nif_call_evaluated_def wakeup_def
        enif_cond_signal_def enif_make_copy_def returned_def)

text \<open>
  Claim C5 does not hold of the code. The invoking thread tests the flag and finds it clear;
  before it enters \<^verbatim>\<open>enif_cond_wait\<close> the evaluator runs \<^verbatim>\<open>nif_call_evaluated\<close> with \<open>v\<close>, which
  does not take the mutex: it stores \<open>v\<close>, sets the flag and signals a condition variable on
  which nobody waits yet. The invoking thread then goes to sleep with the flag set. The call
  has been completed with \<open>v\<close>, and however many further turns the invoking thread is given,
  \<^verbatim>\<open>make_nif_call\<close> does not return.
\<close>

theorem lost_wakeup:
  "fst (nif_call_evaluated (run (projr (make_nif_call_begin all_ok fn args)) [Invoker])
          Callback_term v) = Inr (Atom ''ok'') \<and>
   return_value (res (run (projr (make_nif_call_begin all_ok fn args))
          [Invoker, Evaluator Callback_term v, Invoker])) = v \<and>
   return_value_set (res (run (projr (make_nif_call_begin all_ok fn args))
          [Invoker, Evaluator Callback_term v, Invoker])) \<and>
   pc (run (projr (make_nif_call_begin all_ok fn args))
          [Invoker, Evaluator Callback_term v, Invoker]) = Blocked \<and>
   make_nif_call all_ok fn args
     ([Invoker, Evaluator Callback_term v, Invoker] @ replicate n Invoker) = None"
proof -
  obtain st where st: "make_nif_call_begin all_ok fn args = Inr st" "pc st = Test"
      "\<not> return_value_set (res st)"
    using make_nif_call_begin_ok by blast
  let ?st3 = "run st [Invoker, Evaluator Callback_term v, Invoker]"
  have ok: "fst (nif_call_evaluated (run st [Invoker]) Callback_term v) = Inr (Atom ''ok'')"
    by (simp add: nif_call_evaluated_def enif_make_copy_def)
  have slot: "return_value (res ?st3) = v" "return_value_set (res ?st3)" "pc ?st3 = Blocked"
    using st(2,3)
    by (simp_all add: make_nif_call_step_def nif_call_evaluated_def enif_make_copy_def
        enif_cond_signal_def wakeup_def)
  then have "run ?st3 (replicate n Invoker) = ?st3" "returned ?st3 = None"
    by (simp_all add: run_Invoker_Blocked returned_def)
  then have "make_nif_call all_ok fn args
      ([Invoker, Evaluator Callback_term v, Invoker] @ replicate n Invoker) = None"
    using st(1)
      run_append [of st "[Invoker, Evaluator Callback_term v, Invoker]" "replicate n Invoker"]
    by (simp add: make_nif_call_def del: run.simps)
  with ok slot st(1) show ?thesis
    by (simp del: run.simps)
qed

end
